theory Spec2Isabelle
  imports Complex_Main
begin

section \<open>Constants\<close>

text \<open>
  The numeric constants of the circuit component. A JavaScript \<open>number\<close> is modelled as a
  \<open>real\<close>: every theorem below is about exact real arithmetic.
\<close>

abbreviation RAIL_TOTAL_LENGTH :: real where "RAIL_TOTAL_LENGTH \<equiv> 2040"
abbreviation ELECTRON_SPEED :: real where "ELECTRON_SPEED \<equiv> 20"
abbreviation ELECTROLYTE_DEPLETION_RATE :: real where "ELECTROLYTE_DEPLETION_RATE \<equiv> 5"
abbreviation IONS_DEPLETION_RATE :: real where "IONS_DEPLETION_RATE \<equiv> 5"

section \<open>The remainder operator\<close>

text \<open>
  JavaScript's \<open>a % b\<close> truncates the quotient toward zero, so the result has the sign of
  the dividend.
\<close>

definition js_trunc :: "real \<Rightarrow> int" where
  "js_trunc r = (if 0 \<le> r then \<lfloor>r\<rfloor> else \<lceil>r\<rceil>)"

definition js_rem :: "real \<Rightarrow> real \<Rightarrow> real" where
  "js_rem a b = a - b * of_int (js_trunc (a / b))"

section \<open>Path parameterization: getXY\<close>

datatype segment_tag = STop | SRight | SBottom | SLeft

text \<open>The interface \<open>Point\<close>; its fields \<open>x\<close> and \<open>y\<close> are \<open>pt_x\<close> and \<open>pt_y\<close> here.\<close>

record point =
  pt_x :: real
  pt_y :: real
  segment :: segment_tag

text \<open>The first two statements of \<open>getXY\<close>: the remainder, shifted by the length when negative.\<close>

definition railPos :: "real \<Rightarrow> real" where
  "railPos trackPos =
     (let p = js_rem trackPos RAIL_TOTAL_LENGTH
      in if p < 0 then p + RAIL_TOTAL_LENGTH else p)"

definition getXY :: "real \<Rightarrow> real \<Rightarrow> point" where
  "getXY trackPos transPos =
     (let p = railPos trackPos;
          s1 = 317.5;
          s2 = 385;
          s3 = 635;
          s4 = 385
      in if p < s1 then
           \<lparr>pt_x = 325 + p, pt_y = 7.5 + transPos, segment = STop\<rparr>
         else if p < s1 + s2 then
           \<lparr>pt_x = 642.5 - transPos, pt_y = 7.5 + (p - s1), segment = SRight\<rparr>
         else if p < s1 + s2 + s3 then
           \<lparr>pt_x = 642.5 - (p - (s1 + s2)), pt_y = 392.5 - transPos, segment = SBottom\<rparr>
         else if p < s1 + s2 + s3 + s4 then
           \<lparr>pt_x = 7.5 + transPos, pt_y = 392.5 - (p - (s1 + s2 + s3)), segment = SLeft\<rparr>
         else
           \<lparr>pt_x = 7.5 + (p - (s1 + s2 + s3 + s4)), pt_y = 7.5 + transPos, segment = STop\<rparr>)"

section \<open>Battery state\<close>

text \<open>
  The four \<open>useState\<close> cells of \<open>B1Circuit\<close> that make up the battery. \<open>isOpen\<close> is the
  flag the spec calls \<open>circuitClosed\<close> (the bulb is lit while it is true), \<open>isDepleted\<close> is
  \<open>exhausted\<close>.
\<close>

record battery =
  isOpen :: bool
  isDepleted :: bool
  electrolyteH :: real
  ionsCount :: real

definition initialBattery :: battery where
  "initialBattery = \<lparr>isOpen = False, isDepleted = False, electrolyteH = 75, ionsCount = 75\<rparr>"

definition resetBattery :: "battery \<Rightarrow> battery" where
  "resetBattery s = s\<lparr>electrolyteH := 75, ionsCount := 75, isDepleted := False, isOpen := False\<rparr>"

definition handleToggle :: "battery \<Rightarrow> battery" where
  "handleToggle s = (if isDepleted s then resetBattery s else s\<lparr>isOpen := \<not> isOpen s\<rparr>)"

text \<open>The callback of the depletion interval: both setters, and the flag set when the new level is 0.\<close>

definition depletionTick :: "battery \<Rightarrow> battery" where
  "depletionTick s =
     (let newH = max 0 (electrolyteH s - ELECTROLYTE_DEPLETION_RATE)
      in s\<lparr>electrolyteH := newH,
           isDepleted := (if newH = 0 then True else isDepleted s),
           ionsCount := max 0 (ionsCount s - IONS_DEPLETION_RATE)\<rparr>)"

text \<open>
  One period of the depletion effect: the interval is installed only while
  \<open>isOpen && !isDepleted\<close>, and cleared otherwise, so the callback runs only then.
\<close>

definition batteryInterval :: "battery \<Rightarrow> battery" where
  "batteryInterval s = (if isOpen s \<and> \<not> isDepleted s then depletionTick s else s)"

datatype action = Toggle | Tick | Reset

fun step :: "battery \<Rightarrow> action \<Rightarrow> battery" where
  "step s Toggle = handleToggle s"
| "step s Tick = batteryInterval s"
| "step s Reset = resetBattery s"

definition run :: "action list \<Rightarrow> battery" where
  "run as = foldl step initialBattery as"

section \<open>Particle pool: animate\<close>

text \<open>The interface \<open>Electron\<close>; its field \<open>id\<close> is \<open>eid\<close> here.\<close>

record electron =
  trackPos :: real
  transPos :: real
  eid :: nat
  vibeDelay :: real
  vibeDuration :: real

definition moveElectron :: "real \<Rightarrow> electron \<Rightarrow> electron" where
  "moveElectron deltaTime e =
     e\<lparr>trackPos := js_rem (trackPos e + ELECTRON_SPEED * deltaTime) RAIL_TOTAL_LENGTH\<rparr>"

text \<open>The guarded update inside \<open>animate\<close>, for a given \<open>deltaTime\<close>.\<close>

definition advance :: "battery \<Rightarrow> real \<Rightarrow> electron list \<Rightarrow> electron list" where
  "advance b deltaTime es =
     (if isOpen b \<and> \<not> isDepleted b then map (moveElectron deltaTime) es else es)"

definition advanceAll :: "battery \<Rightarrow> real list \<Rightarrow> electron list \<Rightarrow> electron list" where
  "advanceAll b ds es = foldl (\<lambda>acc d. advance b d acc) es ds"

text \<open>
  \<open>animate\<close> itself, with the ref cell \<open>lastTimeRef\<close>: it starts as \<open>null\<close> (here \<open>None\<close>),
  which is not \<open>undefined\<close>, so the guard always passes and \<open>null\<close> counts as 0 in the
  subtraction.
\<close>

record frames =
  lastTimeRef :: "real option"
  electrons :: "electron list"

definition animate :: "battery \<Rightarrow> real \<Rightarrow> frames \<Rightarrow> frames" where
  "animate b time f =
     (let deltaTime = (time - (case lastTimeRef f of None \<Rightarrow> 0 | Some l \<Rightarrow> l)) / 1000
      in \<lparr>lastTimeRef = Some time, electrons = advance b deltaTime (electrons f)\<rparr>)"

definition animateAll :: "battery \<Rightarrow> real list \<Rightarrow> frames \<Rightarrow> frames" where
  "animateAll b ts f = foldl (\<lambda>acc time. animate b time acc) f ts"

text \<open>
  The values of \<open>deltaTime\<close> that successive calls of \<open>animate\<close> compute, from the ref cell
  before the first call and the frame times.
\<close>

fun frameDeltas :: "real option \<Rightarrow> real list \<Rightarrow> real list" where
  "frameDeltas lastTime [] = []"
| "frameDeltas lastTime (time # ts) =
     (time - (case lastTime of None \<Rightarrow> 0 | Some l \<Rightarrow> l)) / 1000 # frameDeltas (Some time) ts"

text \<open>
  The spec writes the wrapped position as \<open>x mod L\<close>, the floored modulo of a real number.
  This definition follows the spec's words; \<open>js_rem\<close> above is what the code computes.
\<close>

definition spec_mod :: "real \<Rightarrow> real \<Rightarrow> real" where
  "spec_mod a m = a - m * of_int \<lfloor>a / m\<rfloor>"

section \<open>Spawn pool: the electrons inside the battery\<close>

record batElectron =
  be_x :: real
  be_y :: real
  be_id :: real
  start :: real

text \<open>The interval callback appends an entry; the timeout callback filters it out by id.\<close>

definition spawnEntry :: "batElectron \<Rightarrow> batElectron list \<Rightarrow> batElectron list" where
  "spawnEntry be prev = prev @ [be]"

definition removeEntry :: "real \<Rightarrow> batElectron list \<Rightarrow> batElectron list" where
  "removeEntry ident prev = filter (\<lambda>e. be_id e \<noteq> ident) prev"

text \<open>The render of one entry at \<open>Date.now() = now\<close>.\<close>

definition progress :: "real \<Rightarrow> batElectron \<Rightarrow> real" where
  "progress now be = (now - start be) / 1000"

definition currX :: "real \<Rightarrow> batElectron \<Rightarrow> real" where
  "currX now be = be_x be - 350 + (50 - (be_x be - 350)) * progress now be"

definition currY :: "real \<Rightarrow> batElectron \<Rightarrow> real" where
  "currY now be = be_y be + (37.5 - be_y be) * progress now be"

definition opacity :: "real \<Rightarrow> batElectron \<Rightarrow> real" where
  "opacity now be = 1 - progress now be"

definition renderBatElectrons :: "real \<Rightarrow> batElectron list \<Rightarrow> (real \<times> real \<times> real) list" where
  "renderBatElectrons now pool = map (\<lambda>be. (currX now be, currY now be, opacity now be)) pool"

section \<open>Field lines\<close>

text \<open>The \<open>for\<close> loop of \<open>fieldLinesGenerated\<close>, with the loop variable and the list built so far.\<close>

text \<open>The test that makes the loop skip a sample (\<open>continue\<close>).\<close>

definition overlapsBattery :: "point \<Rightarrow> bool" where
  "overlapsBattery pos = (segment pos = STop \<and> 250 \<le> pt_x pos \<and> pt_x pos \<le> 400)"

function fieldLoop :: "real \<Rightarrow> point list \<Rightarrow> point list" where
  "fieldLoop p lines =
     (if p < RAIL_TOTAL_LENGTH then
        (let pos = getXY p 0
         in if overlapsBattery pos
            then fieldLoop (p + 40) lines
            else fieldLoop (p + 40) (lines @ [pos]))
      else lines)"
  by pat_completeness auto
termination
proof (relation "measure (\<lambda>(p, lines). nat \<lceil>RAIL_TOTAL_LENGTH - p\<rceil>)")
  show "wf (measure (\<lambda>(p, lines). nat \<lceil>RAIL_TOTAL_LENGTH - p\<rceil>))"
    by simp
next
  fix p :: real and lines :: "point list" and pos :: point
  assume "p < RAIL_TOTAL_LENGTH"
  then have "\<lceil>RAIL_TOTAL_LENGTH - (p + 40)\<rceil> < \<lceil>RAIL_TOTAL_LENGTH - p\<rceil>" "0 < \<lceil>RAIL_TOTAL_LENGTH - p\<rceil>"
    by linarith+
  then show "((p + 40, lines), (p, lines)) \<in> measure (\<lambda>(p, lines). nat \<lceil>RAIL_TOTAL_LENGTH - p\<rceil>)"
    by simp
next
  fix p :: real and lines :: "point list" and pos :: point
  assume "p < RAIL_TOTAL_LENGTH"
  then have "\<lceil>RAIL_TOTAL_LENGTH - (p + 40)\<rceil> < \<lceil>RAIL_TOTAL_LENGTH - p\<rceil>" "0 < \<lceil>RAIL_TOTAL_LENGTH - p\<rceil>"
    by linarith+
  then show "((p + 40, lines @ [pos]), (p, lines)) \<in> measure (\<lambda>(p, lines). nat \<lceil>RAIL_TOTAL_LENGTH - p\<rceil>)"
    by simp
qed

definition fieldLinesGenerated :: "point list" where
  "fieldLinesGenerated = fieldLoop 0 []"

section \<open>Battery state machine\<close>

text \<open>
  C1 (as stated, refuted): the claim says that \<open>toggle()\<close> leaves an exhausted battery
  unchanged. On the exhausted state reached by depletion (circuit closed, both quantities 0)
  \<open>handleToggle\<close> returns a different state.
\<close>

theorem toggle_exhausted_not_noop:
  "isDepleted \<lparr>isOpen = True, isDepleted = True, electrolyteH = 0, ionsCount = 0\<rparr> \<and>
   handleToggle \<lparr>isOpen = True, isDepleted = True, electrolyteH = 0, ionsCount = 0\<rparr>
     \<noteq> \<lparr>isOpen = True, isDepleted = True, electrolyteH = 0, ionsCount = 0\<rparr> \<and>
   handleToggle \<lparr>isOpen = True, isDepleted = True, electrolyteH = 0, ionsCount = 0\<rparr>
     = \<lparr>isOpen = False, isDepleted = False, electrolyteH = 75, ionsCount = 75\<rparr>"
  by (simp add: handleToggle_def resetBattery_def)

text \<open>
  C1 (amended): for every battery state with \<open>exhausted == true\<close>, \<open>toggle()\<close> does what
  \<open>reset()\<close> does: the result is the open circuit with full charge, not exhausted.
\<close>

theorem toggle_exhausted_resets:
  "isDepleted s \<Longrightarrow>
     handleToggle s = resetBattery s \<and>
     handleToggle s = \<lparr>isOpen = False, isDepleted = False, electrolyteH = 75, ionsCount = 75\<rparr>"
  by (simp add: handleToggle_def resetBattery_def)

text \<open>C1 (amended), at the exhausted state reached by depletion.\<close>

theorem toggle_exhausted_resets_witness:
  "isDepleted \<lparr>isOpen = True, isDepleted = True, electrolyteH = 0, ionsCount = 0\<rparr> \<and>
   handleToggle \<lparr>isOpen = True, isDepleted = True, electrolyteH = 0, ionsCount = 0\<rparr>
     = \<lparr>isOpen = False, isDepleted = False, electrolyteH = 75, ionsCount = 75\<rparr>"
proof -
  have h: "isDepleted \<lparr>isOpen = True, isDepleted = True, electrolyteH = 0, ionsCount = 0\<rparr>"
    by simp
  from toggle_exhausted_resets [OF h] h show ?thesis
    by blast
qed

text \<open>
  C6: \<open>reset()\<close> from any battery state whatever (so from every reachable one) yields exactly
  electrolyte level 75, ion count 75, not exhausted, circuit open.
\<close>

theorem resetBattery_full_charge:
  "resetBattery s = \<lparr>isOpen = False, isDepleted = False, electrolyteH = 75, ionsCount = 75\<rparr>"
  by (simp add: resetBattery_def)

lemma batteryInterval_at:
  "batteryInterval
     \<lparr>isOpen = True, isDepleted = (15 \<le> n),
      electrolyteH = max 0 (75 - 5 * real n), ionsCount = max 0 (75 - 5 * real n)\<rparr>
   = \<lparr>isOpen = True, isDepleted = (15 \<le> Suc n),
      electrolyteH = max 0 (75 - 5 * real (Suc n)), ionsCount = max 0 (75 - 5 * real (Suc n))\<rparr>"
proof (cases "n < 14")
  case True
  then have "5 * real n < 70"
    by simp
  with True show ?thesis
    by (simp add: batteryInterval_def depletionTick_def Let_def max_def)
next
  case False
  then have "70 \<le> 5 * real n"
    by simp
  with False show ?thesis
    by (auto simp add: batteryInterval_def depletionTick_def Let_def max_def)
qed

lemma batteryInterval_funpow:
  "(batteryInterval ^^ n) \<lparr>isOpen = True, isDepleted = False, electrolyteH = 75, ionsCount = 75\<rparr>
   = \<lparr>isOpen = True, isDepleted = (15 \<le> n),
      electrolyteH = max 0 (75 - 5 * real n), ionsCount = max 0 (75 - 5 * real n)\<rparr>"
proof (induction n)
  case 0
  show ?case
    by simp
next
  case (Suc n)
  have "(batteryInterval ^^ Suc n)
          \<lparr>isOpen = True, isDepleted = False, electrolyteH = 75, ionsCount = 75\<rparr>
        = batteryInterval
            \<lparr>isOpen = True, isDepleted = (15 \<le> n),
             electrolyteH = max 0 (75 - 5 * real n), ionsCount = max 0 (75 - 5 * real n)\<rparr>"
    using Suc by simp
  then show ?case
    by (simp only: batteryInterval_at)
qed

text \<open>
  C2: a depletion tick lowers both quantities by 5, clamped at 0. From the closed, full
  battery (75 and 75), after \<open>n\<close> periods of the depletion interval both quantities are
  \<open>max 0 (75 - 5 n)\<close> and the battery is exhausted exactly when \<open>15 \<le> n\<close>: after 15 ticks
  both are 0 and \<open>exhausted\<close> is true, not earlier, and from then on the interval no longer
  runs its callback, so the state stays the same for all later time.
\<close>

theorem depletion_fifteen_ticks:
  "electrolyteH (depletionTick s) = max 0 (electrolyteH s - 5) \<and>
   ionsCount (depletionTick s) = max 0 (ionsCount s - 5) \<and>
   (batteryInterval ^^ n) \<lparr>isOpen = True, isDepleted = False, electrolyteH = 75, ionsCount = 75\<rparr>
     = \<lparr>isOpen = True, isDepleted = (15 \<le> n),
        electrolyteH = max 0 (75 - 5 * real n), ionsCount = max 0 (75 - 5 * real n)\<rparr> \<and>
   (batteryInterval ^^ 15) \<lparr>isOpen = True, isDepleted = False, electrolyteH = 75, ionsCount = 75\<rparr>
     = \<lparr>isOpen = True, isDepleted = True, electrolyteH = 0, ionsCount = 0\<rparr> \<and>
   (batteryInterval ^^ (15 + k)) \<lparr>isOpen = True, isDepleted = False, electrolyteH = 75, ionsCount = 75\<rparr>
     = \<lparr>isOpen = True, isDepleted = True, electrolyteH = 0, ionsCount = 0\<rparr> \<and>
   batteryInterval \<lparr>isOpen = True, isDepleted = True, electrolyteH = 0, ionsCount = 0\<rparr>
     = \<lparr>isOpen = True, isDepleted = True, electrolyteH = 0, ionsCount = 0\<rparr>"
proof -
  have tick: "electrolyteH (depletionTick s) = max 0 (electrolyteH s - 5) \<and>
      ionsCount (depletionTick s) = max 0 (ionsCount s - 5)"
    by (simp add: depletionTick_def Let_def)
  have at15: "(batteryInterval ^^ 15)
        \<lparr>isOpen = True, isDepleted = False, electrolyteH = 75, ionsCount = 75\<rparr>
      = \<lparr>isOpen = True, isDepleted = True, electrolyteH = 0, ionsCount = 0\<rparr>"
    by (simp only: batteryInterval_funpow) simp
  have after: "(batteryInterval ^^ (15 + k))
        \<lparr>isOpen = True, isDepleted = False, electrolyteH = 75, ionsCount = 75\<rparr>
      = \<lparr>isOpen = True, isDepleted = True, electrolyteH = 0, ionsCount = 0\<rparr>"
    by (simp only: batteryInterval_funpow) simp
  have idle: "batteryInterval \<lparr>isOpen = True, isDepleted = True, electrolyteH = 0, ionsCount = 0\<rparr>
      = \<lparr>isOpen = True, isDepleted = True, electrolyteH = 0, ionsCount = 0\<rparr>"
    by (simp add: batteryInterval_def)
  from tick batteryInterval_funpow [of n] at15 after idle show ?thesis
    by (intro conjI) (erule conjunct1, erule conjunct2, assumption+)
qed

lemma step_keeps_equal:
  "electrolyteH s = ionsCount s \<Longrightarrow> electrolyteH (step s a) = ionsCount (step s a)"
  by (cases a)
    (simp_all add: handleToggle_def resetBattery_def batteryInterval_def depletionTick_def Let_def)

lemma foldl_step_keeps_equal:
  "electrolyteH s = ionsCount s \<Longrightarrow>
     electrolyteH (foldl step s as) = ionsCount (foldl step s as)"
  by (induction as arbitrary: s) (simp_all add: step_keeps_equal)

text \<open>
  C10: in every state reached from the initial state by any sequence of toggles, depletion
  ticks and resets, the electrolyte level equals the ion count.
\<close>

theorem levels_equal_reachable:
  "electrolyteH (run as) = ionsCount (run as)"
  unfolding run_def by (rule foldl_step_keeps_equal) (simp add: initialBattery_def)

section \<open>Frozen particles\<close>

lemma advanceAll_inactive:
  "\<not> isOpen b \<or> isDepleted b \<Longrightarrow> advanceAll b ds es = es"
  unfolding advanceAll_def by (induction ds) (auto simp: advance_def)

lemma animateAll_inactive:
  "\<not> isOpen b \<or> isDepleted b \<Longrightarrow> electrons (animateAll b ts f) = electrons f"
  unfolding animateAll_def
  by (induction ts arbitrary: f) (auto simp: animate_def advance_def Let_def)

text \<open>
  C5: while the circuit is open or the battery is exhausted, any number of advance calls,
  with any deltas, returns the particle list unchanged (every field of every particle, so
  track position and lateral offset too); the same holds for any sequence of animation
  frames.
\<close>

theorem advance_frozen:
  "\<not> isOpen b \<or> isDepleted b \<Longrightarrow>
     advanceAll b ds es = es \<and>
     map trackPos (advanceAll b ds es) = map trackPos es \<and>
     map transPos (advanceAll b ds es) = map transPos es \<and>
     electrons (animateAll b ts f) = electrons f"
  by (simp add: advanceAll_inactive animateAll_inactive)

text \<open>C5, on an exhausted battery with the circuit closed: three frames, one particle.\<close>

theorem advance_frozen_witness:
  "isDepleted \<lparr>isOpen = True, isDepleted = True, electrolyteH = 0, ionsCount = 0\<rparr> \<and>
   advanceAll \<lparr>isOpen = True, isDepleted = True, electrolyteH = 0, ionsCount = 0\<rparr>
     [1 / 60, 1 / 60, 1 / 30]
     [\<lparr>trackPos = 2030, transPos = 3, eid = 0, vibeDelay = - 1, vibeDuration = 1 / 2\<rparr>]
   = [\<lparr>trackPos = 2030, transPos = 3, eid = 0, vibeDelay = - 1, vibeDuration = 1 / 2\<rparr>]"
proof -
  have h: "\<not> isOpen \<lparr>isOpen = True, isDepleted = True, electrolyteH = 0, ionsCount = 0\<rparr> \<or>
      isDepleted \<lparr>isOpen = True, isDepleted = True, electrolyteH = 0, ionsCount = 0\<rparr>"
    by simp
  from advance_frozen [OF h] show ?thesis
    by simp
qed

section \<open>Spawn pool rendering\<close>

text \<open>
  C7 (as stated, refuted): the claim says the progress used by the render is clamped to
  [0, 1]. An entry spawned at time \<open>t0\<close> whose removal has not run yet is still in the
  pool at time \<open>t0 + 1500\<close>; it is rendered with progress 3/2 and opacity -1/2, at (70, 51.25), past the
  target point (50, 37.5).
\<close>

theorem progress_not_clamped:
  "progress 1700000001500 \<lparr>be_x = 360, be_y = 10, be_id = 1 / 2, start = 1700000000000\<rparr> = 3 / 2 \<and>
   \<not> progress 1700000001500 \<lparr>be_x = 360, be_y = 10, be_id = 1 / 2, start = 1700000000000\<rparr> \<le> 1 \<and>
   opacity 1700000001500 \<lparr>be_x = 360, be_y = 10, be_id = 1 / 2, start = 1700000000000\<rparr> < 0 \<and>
   renderBatElectrons 1700000001500 (spawnEntry \<lparr>be_x = 360, be_y = 10, be_id = 1 / 2, start = 1700000000000\<rparr> [])
     = [(70, 205 / 4, - 1 / 2)]"
  by (simp add: progress_def opacity_def renderBatElectrons_def spawnEntry_def currX_def currY_def)

lemma lerp_between:
  fixes a c t :: real
  assumes "0 \<le> t" "t \<le> 1"
  shows "min a c \<le> a + (c - a) * t \<and> a + (c - a) * t \<le> max a c"
proof (cases "a \<le> c")
  case True
  with assms have "0 \<le> (c - a) * t"
    by simp
  moreover from True assms have "(c - a) * t \<le> c - a"
    using mult_left_le [of t "c - a"] by simp
  ultimately show ?thesis
    using True by simp
next
  case False
  with assms have "0 \<le> (a - c) * t"
    by simp
  moreover from False assms have "(a - c) * t \<le> a - c"
    using mult_left_le [of t "a - c"] by simp
  ultimately show ?thesis
    using False by (simp add: algebra_simps)
qed

text \<open>
  C7 (amended): for every spawn-pool entry and every render time, the progress is
  \<open>(now - birthTime) / 1000\<close>, computed without clamping, the opacity is \<open>1 - progress\<close> and
  the position is the linear interpolation with that progress. The progress and the opacity
  lie in [0, 1] exactly when \<open>birthTime \<le> now \<le> birthTime + 1000\<close>; for such a render time
  the position lies between the spawn point and the target point (50, 37.5). An entry
  rendered later than its lifetime, and only such an entry, has progress above 1 and
  negative opacity.
\<close>

theorem progress_linear_unclamped:
  "progress now be = (now - start be) / 1000 \<and>
   opacity now be = 1 - (now - start be) / 1000 \<and>
   currX now be = be_x be - 350 + (50 - (be_x be - 350)) * ((now - start be) / 1000) \<and>
   currY now be = be_y be + (37.5 - be_y be) * ((now - start be) / 1000) \<and>
   renderBatElectrons now pool =
     map (\<lambda>e. (be_x e - 350 + (50 - (be_x e - 350)) * ((now - start e) / 1000),
               be_y e + (37.5 - be_y e) * ((now - start e) / 1000),
               1 - (now - start e) / 1000)) pool \<and>
   (0 \<le> progress now be \<and> progress now be \<le> 1) = (start be \<le> now \<and> now \<le> start be + 1000) \<and>
   (0 \<le> opacity now be \<and> opacity now be \<le> 1) = (start be \<le> now \<and> now \<le> start be + 1000) \<and>
   (1 < progress now be) = (start be + 1000 < now) \<and>
   (opacity now be < 0) = (start be + 1000 < now) \<and>
   (start be \<le> now \<and> now \<le> start be + 1000 \<longrightarrow>
      min (be_x be - 350) 50 \<le> currX now be \<and> currX now be \<le> max (be_x be - 350) 50 \<and>
      min (be_y be) 37.5 \<le> currY now be \<and> currY now be \<le> max (be_y be) 37.5)"
proof -
  have eqs: "progress now be = (now - start be) / 1000"
    "opacity now be = 1 - (now - start be) / 1000"
    "currX now be = be_x be - 350 + (50 - (be_x be - 350)) * ((now - start be) / 1000)"
    "currY now be = be_y be + (37.5 - be_y be) * ((now - start be) / 1000)"
    by (simp_all add: progress_def opacity_def currX_def currY_def)
  have rend: "renderBatElectrons now pool =
     map (\<lambda>e. (be_x e - 350 + (50 - (be_x e - 350)) * ((now - start e) / 1000),
               be_y e + (37.5 - be_y e) * ((now - start e) / 1000),
               1 - (now - start e) / 1000)) pool"
    by (simp add: renderBatElectrons_def progress_def opacity_def currX_def currY_def)
  have rng: "(0 \<le> progress now be \<and> progress now be \<le> 1) = (start be \<le> now \<and> now \<le> start be + 1000)"
    "(0 \<le> opacity now be \<and> opacity now be \<le> 1) = (start be \<le> now \<and> now \<le> start be + 1000)"
    "(1 < progress now be) = (start be + 1000 < now)"
    "(opacity now be < 0) = (start be + 1000 < now)"
    by (auto simp add: progress_def opacity_def)
  have pos: "min (be_x be - 350) 50 \<le> currX now be \<and> currX now be \<le> max (be_x be - 350) 50 \<and>
      min (be_y be) 37.5 \<le> currY now be \<and> currY now be \<le> max (be_y be) 37.5"
    if life: "start be \<le> now \<and> now \<le> start be + 1000"
  proof -
    from life have p: "0 \<le> progress now be" "progress now be \<le> 1"
      by (simp_all add: progress_def)
    from lerp_between [OF p, of "be_x be - 350" 50] lerp_between [OF p, of "be_y be" "37.5"]
    show ?thesis
      by (simp add: currX_def currY_def)
  qed
  from eqs rend rng pos show ?thesis
    by blast
qed

text \<open>
  C7 (amended), for one entry rendered 250 ms after it was spawned (progress 1/4, inside
  the bounds) and 1500 ms after it was spawned (progress 3/2, opacity -1/2).
\<close>

theorem progress_linear_unclamped_witness:
  "start \<lparr>be_x = 360, be_y = 10, be_id = 1 / 2, start = 1700000000000\<rparr> \<le> 1700000000250 \<and>
   1700000000250 \<le> start \<lparr>be_x = 360, be_y = 10, be_id = 1 / 2, start = 1700000000000\<rparr> + 1000 \<and>
   progress 1700000000250 \<lparr>be_x = 360, be_y = 10, be_id = 1 / 2, start = 1700000000000\<rparr> = 1 / 4 \<and>
   currX 1700000000250 \<lparr>be_x = 360, be_y = 10, be_id = 1 / 2, start = 1700000000000\<rparr> \<le> 50 \<and>
   currY 1700000000250 \<lparr>be_x = 360, be_y = 10, be_id = 1 / 2, start = 1700000000000\<rparr> \<le> 37.5 \<and>
   progress 1700000001500 \<lparr>be_x = 360, be_y = 10, be_id = 1 / 2, start = 1700000000000\<rparr> = 3 / 2 \<and>
   opacity 1700000001500 \<lparr>be_x = 360, be_y = 10, be_id = 1 / 2, start = 1700000000000\<rparr> = - 1 / 2"
proof -
  let ?be = "\<lparr>be_x = 360, be_y = 10, be_id = 1 / 2, start = 1700000000000\<rparr>"
  have h1: "start ?be \<le> 1700000000250" and h2: "1700000000250 \<le> start ?be + 1000"
    by simp_all
  from progress_linear_unclamped [of 1700000000250 ?be] h1 h2
  have inside: "progress 1700000000250 ?be = 1 / 4 \<and> currX 1700000000250 ?be \<le> 50 \<and>
      currY 1700000000250 ?be \<le> 37.5"
    by simp
  from progress_linear_unclamped [of 1700000001500 ?be]
  have late: "progress 1700000001500 ?be = 3 / 2 \<and> opacity 1700000001500 ?be = - 1 / 2"
    by simp
  from h1 h2 inside late show ?thesis
    by blast
qed

section \<open>Lateral offset\<close>

text \<open>
  C9 (as stated, refuted): the claim says a positive lateral offset moves the point outward
  on the right and bottom segments. At track position 500 (right segment) with offset 1 the
  x coordinate is 641.5, not greater than 642.5; at track position 1000 (bottom segment) the
  y coordinate is 391.5, not greater than 392.5.
\<close>

theorem offset_not_outward:
  "segment (getXY 500 1) = SRight \<and> pt_x (getXY 500 1) = 641.5 \<and>
   \<not> 642.5 < pt_x (getXY 500 1) \<and>
   segment (getXY 1000 1) = SBottom \<and> pt_y (getXY 1000 1) = 391.5 \<and>
   \<not> 392.5 < pt_y (getXY 1000 1)"
  by (simp add: getXY_def railPos_def js_rem_def js_trunc_def Let_def)

text \<open>
  C9 (amended): for every track position on the right segment and every positive lateral
  offset \<open>t\<close>, the x coordinate is \<open>642.5 - t\<close>, strictly less than the rail coordinate 642.5;
  for every track position on the bottom segment, the y coordinate is \<open>392.5 - t\<close>, strictly
  less than 392.5. A positive offset points toward the loop interior on both segments.
\<close>

theorem offset_inward_right_bottom:
  "0 < t \<Longrightarrow>
     (segment (getXY p t) = SRight \<longrightarrow>
        pt_x (getXY p t) = 642.5 - t \<and> pt_x (getXY p t) < 642.5) \<and>
     (segment (getXY p t) = SBottom \<longrightarrow>
        pt_y (getXY p t) = 392.5 - t \<and> pt_y (getXY p t) < 392.5)"
  by (auto simp: getXY_def Let_def split: if_splits)

text \<open>C9 (amended), at track positions 500 (right) and 1000 (bottom) with offset 1.\<close>

theorem offset_inward_right_bottom_witness:
  "(0::real) < 1 \<and>
   segment (getXY 500 1) = SRight \<and> pt_x (getXY 500 1) < 642.5 \<and>
   segment (getXY 1000 1) = SBottom \<and> pt_y (getXY 1000 1) < 392.5"
proof -
  have h: "(0::real) < 1"
    by simp
  have r: "segment (getXY 500 1) = SRight" and b: "segment (getXY 1000 1) = SBottom"
    by (simp_all add: getXY_def railPos_def js_rem_def js_trunc_def Let_def)
  from offset_inward_right_bottom [OF h, of 500] offset_inward_right_bottom [OF h, of 1000] r b
  show ?thesis
    by simp
qed

section \<open>The normalised track position\<close>

lemma floor_mod_range:
  fixes a :: real
  shows "0 \<le> a - 2040 * of_int \<lfloor>a / 2040\<rfloor>" "a - 2040 * of_int \<lfloor>a / 2040\<rfloor> < 2040"
proof -
  have "of_int \<lfloor>a / 2040\<rfloor> \<le> a / 2040" "a / 2040 < of_int \<lfloor>a / 2040\<rfloor> + 1"
    by linarith+
  then show "0 \<le> a - 2040 * of_int \<lfloor>a / 2040\<rfloor>" "a - 2040 * of_int \<lfloor>a / 2040\<rfloor> < 2040"
    by (simp_all add: field_simps)
qed

lemma js_rem_nonneg:
  "0 \<le> a \<Longrightarrow> js_rem a RAIL_TOTAL_LENGTH = spec_mod a RAIL_TOTAL_LENGTH"
  by (simp add: js_rem_def js_trunc_def spec_mod_def)

text \<open>The two statements at the head of \<open>getXY\<close> compute the floored modulo, for every real input.\<close>

lemma railPos_floor: "railPos a = spec_mod a RAIL_TOTAL_LENGTH"
proof (cases "0 \<le> a")
  case True
  with floor_mod_range(1) [of a] show ?thesis
    by (simp add: railPos_def js_rem_def js_trunc_def spec_mod_def Let_def)
next
  case False
  then have neg: "\<not> 0 \<le> a / 2040"
    by simp
  show ?thesis
  proof (cases "a / 2040 = of_int \<lfloor>a / 2040\<rfloor>")
    case True
    then have "\<lceil>a / 2040\<rceil> = \<lfloor>a / 2040\<rfloor>"
      by (simp add: ceiling_altdef)
    moreover from True have "a - 2040 * of_int \<lfloor>a / 2040\<rfloor> = 0"
      by (simp add: field_simps)
    ultimately show ?thesis
      using neg by (simp add: railPos_def js_rem_def js_trunc_def spec_mod_def Let_def)
  next
    case False
    then have up: "\<lceil>a / 2040\<rceil> = \<lfloor>a / 2040\<rfloor> + 1"
      by (simp add: ceiling_altdef)
    have "a - 2040 * of_int (\<lfloor>a / 2040\<rfloor> + 1) < 0"
      using floor_mod_range(2) [of a] by simp
    then show ?thesis
      using neg up by (simp add: railPos_def js_rem_def js_trunc_def spec_mod_def Let_def algebra_simps)
  qed
qed

lemma spec_mod_nonneg: "0 \<le> spec_mod a RAIL_TOTAL_LENGTH"
  using floor_mod_range(1) [of a] by (simp add: spec_mod_def)

lemma spec_mod_less: "spec_mod a RAIL_TOTAL_LENGTH < RAIL_TOTAL_LENGTH"
  using floor_mod_range(2) [of a] by (simp add: spec_mod_def)

lemma spec_mod_small:
  assumes "0 \<le> a" "a < RAIL_TOTAL_LENGTH"
  shows "spec_mod a RAIL_TOTAL_LENGTH = a"
proof -
  from assms have "\<lfloor>a / 2040\<rfloor> = 0"
    by (simp add: floor_eq_iff)
  then show ?thesis
    by (simp add: spec_mod_def)
qed

lemma spec_mod_period: "spec_mod (a + RAIL_TOTAL_LENGTH) RAIL_TOTAL_LENGTH = spec_mod a RAIL_TOTAL_LENGTH"
proof -
  have "(a + 2040) / 2040 = a / 2040 + of_int 1"
    by (simp add: field_simps)
  then have "\<lfloor>(a + 2040) / 2040\<rfloor> = \<lfloor>a / 2040\<rfloor> + 1"
    by (simp only: floor_add_int)
  then show ?thesis
    by (simp add: spec_mod_def algebra_simps)
qed

lemma spec_mod_add:
  "spec_mod (spec_mod a RAIL_TOTAL_LENGTH + d) RAIL_TOTAL_LENGTH = spec_mod (a + d) RAIL_TOTAL_LENGTH"
proof -
  have "(a - 2040 * of_int \<lfloor>a / 2040\<rfloor> + d) / 2040 = (a + d) / 2040 - of_int \<lfloor>a / 2040\<rfloor>"
    by (simp add: field_simps)
  then have "\<lfloor>(a - 2040 * of_int \<lfloor>a / 2040\<rfloor> + d) / 2040\<rfloor> = \<lfloor>(a + d) / 2040\<rfloor> - \<lfloor>a / 2040\<rfloor>"
    by (simp only: floor_diff_of_int)
  then show ?thesis
    by (simp add: spec_mod_def algebra_simps)
qed

lemma railPos_range: "0 \<le> railPos a" "railPos a < RAIL_TOTAL_LENGTH"
  by (simp_all add: railPos_floor spec_mod_nonneg spec_mod_less)

lemma railPos_id: "0 \<le> a \<Longrightarrow> a < RAIL_TOTAL_LENGTH \<Longrightarrow> railPos a = a"
  by (simp add: railPos_floor spec_mod_small)

lemma railPos_decomp: "p = railPos p + RAIL_TOTAL_LENGTH * of_int \<lfloor>p / RAIL_TOTAL_LENGTH\<rfloor>"
  by (simp add: railPos_floor spec_mod_def)

lemma getXY_railPos: "getXY (railPos p) t = getXY p t"
  using railPos_range [of p] by (simp add: getXY_def railPos_id)

lemma getXY_period: "getXY (p + RAIL_TOTAL_LENGTH) t = getXY p t"
  by (simp add: getXY_def railPos_floor spec_mod_period)

section \<open>Continuity of the centre line\<close>

text \<open>Inside one period the two coordinates move at most as fast as the track position.\<close>

lemma x_step_in_period:
  "0 \<le> a \<Longrightarrow> a \<le> b \<Longrightarrow> b < RAIL_TOTAL_LENGTH \<Longrightarrow>
     \<bar>pt_x (getXY b 0) - pt_x (getXY a 0)\<bar> \<le> b - a"
  by (auto simp add: getXY_def railPos_id Let_def)

lemma y_step_in_period:
  "0 \<le> a \<Longrightarrow> a \<le> b \<Longrightarrow> b < RAIL_TOTAL_LENGTH \<Longrightarrow>
     \<bar>pt_y (getXY b 0) - pt_y (getXY a 0)\<bar> \<le> b - a"
  by (auto simp add: getXY_def railPos_id Let_def)

text \<open>The distance to the start point (325, 7.5), measured forward and backward along the loop.\<close>

lemma x_from_start:
  "0 \<le> a \<Longrightarrow> a < RAIL_TOTAL_LENGTH \<Longrightarrow>
     \<bar>pt_x (getXY a 0) - 325\<bar> \<le> a \<and> \<bar>pt_x (getXY a 0) - 325\<bar> \<le> RAIL_TOTAL_LENGTH - a"
  by (auto simp add: getXY_def railPos_id Let_def)

lemma y_from_start:
  "0 \<le> a \<Longrightarrow> a < RAIL_TOTAL_LENGTH \<Longrightarrow>
     \<bar>pt_y (getXY a 0) - 7.5\<bar> \<le> a \<and> \<bar>pt_y (getXY a 0) - 7.5\<bar> \<le> RAIL_TOTAL_LENGTH - a"
  by (auto simp add: getXY_def railPos_id Let_def)

lemma x_bounds: "7.5 \<le> pt_x (getXY p 0) \<and> pt_x (getXY p 0) \<le> 642.5"
  using railPos_range [of p] by (auto simp add: getXY_def Let_def)

lemma y_bounds: "7.5 \<le> pt_y (getXY p 0) \<and> pt_y (getXY p 0) \<le> 392.5"
  using railPos_range [of p] by (auto simp add: getXY_def Let_def)

lemma getXY_step_le:
  assumes "p \<le> q"
  shows "\<bar>pt_x (getXY q 0) - pt_x (getXY p 0)\<bar> \<le> q - p \<and>
         \<bar>pt_y (getXY q 0) - pt_y (getXY p 0)\<bar> \<le> q - p"
proof -
  define kp where "kp = \<lfloor>p / RAIL_TOTAL_LENGTH\<rfloor>"
  define kq where "kq = \<lfloor>q / RAIL_TOTAL_LENGTH\<rfloor>"
  define a where "a = railPos p"
  define b where "b = railPos q"
  have pa: "p = a + 2040 * of_int kp" and qb: "q = b + 2040 * of_int kq"
    using railPos_decomp [of p] railPos_decomp [of q] by (simp_all add: a_def b_def kp_def kq_def)
  have ra: "0 \<le> a" "a < 2040" and rb: "0 \<le> b" "b < 2040"
    using railPos_range [of p] railPos_range [of q] by (simp_all add: a_def b_def)
  have ga: "getXY p 0 = getXY a 0" and gb: "getXY q 0 = getXY b 0"
    by (simp_all add: a_def b_def getXY_railPos)
  have "p / 2040 \<le> q / 2040"
    using assms by simp
  then have "kp \<le> kq"
    unfolding kp_def kq_def by (rule floor_mono)
  then consider (same) "kq = kp" | (adjacent) "kq = kp + 1" | (far) "kp + 2 \<le> kq"
    by linarith
  then show ?thesis
  proof cases
    case same
    then have d: "q - p = b - a"
      using pa qb by simp
    with assms have "a \<le> b"
      by simp
    then show ?thesis
      using x_step_in_period [OF ra(1) _ rb(2)] y_step_in_period [OF ra(1) _ rb(2)] d
      by (simp add: ga gb)
  next
    case adjacent
    then have d: "q - p = b + (2040 - a)"
      using pa qb by simp
    show ?thesis
      using x_from_start [OF ra] x_from_start [OF rb] y_from_start [OF ra] y_from_start [OF rb] d
      by (simp add: ga gb) linarith
  next
    case far
    then have "(of_int kp :: real) + 2 \<le> of_int kq"
      by linarith
    then have "2040 < q - p"
      using pa qb ra rb by linarith
    then show ?thesis
      using x_bounds [of p] x_bounds [of q] y_bounds [of p] y_bounds [of q] by linarith
  qed
qed

lemma getXY_step:
  "\<bar>pt_x (getXY p 0) - pt_x (getXY q 0)\<bar> \<le> \<bar>p - q\<bar> \<and>
   \<bar>pt_y (getXY p 0) - pt_y (getXY q 0)\<bar> \<le> \<bar>p - q\<bar>"
proof (cases "p \<le> q")
  case True
  from getXY_step_le [OF True] show ?thesis
    by linarith
next
  case False
  then have "q \<le> p"
    by simp
  from getXY_step_le [OF this] show ?thesis
    by linarith
qed

lemma isCont_of_step:
  fixes f :: "real \<Rightarrow> real"
  assumes "\<And>u v. \<bar>f u - f v\<bar> \<le> \<bar>u - v\<bar>"
  shows "isCont f a"
  unfolding isCont_def
proof (rule LIM_I)
  fix r :: real
  assume r: "0 < r"
  have "norm (f u - f a) < r" if "u \<noteq> a \<and> norm (u - a) < r" for u
  proof -
    from that have "\<bar>u - a\<bar> < r"
      by simp
    with assms [of u a] show ?thesis
      by simp
  qed
  with r show "\<exists>s>0. \<forall>u. u \<noteq> a \<and> norm (u - a) < s \<longrightarrow> norm (f u - f a) < r"
    by blast
qed

lemma corner_values:
  "getXY 317.5 0 = \<lparr>pt_x = 642.5, pt_y = 7.5, segment = SRight\<rparr> \<and>
   getXY 702.5 0 = \<lparr>pt_x = 642.5, pt_y = 392.5, segment = SBottom\<rparr> \<and>
   getXY 1337.5 0 = \<lparr>pt_x = 7.5, pt_y = 392.5, segment = SLeft\<rparr> \<and>
   getXY 1722.5 0 = \<lparr>pt_x = 7.5, pt_y = 7.5, segment = STop\<rparr> \<and>
   getXY 0 0 = \<lparr>pt_x = 325, pt_y = 7.5, segment = STop\<rparr> \<and>
   getXY RAIL_TOTAL_LENGTH 0 = \<lparr>pt_x = 325, pt_y = 7.5, segment = STop\<rparr>"
  by (simp add: getXY_def railPos_def js_rem_def js_trunc_def Let_def)

text \<open>
  C3: with lateral offset 0, \<open>getXY\<close> has period 2040 on all real track positions, and its
  x and y coordinates are continuous everywhere: between any two track positions each
  coordinate changes by at most the distance of the positions, so there is no jump at the
  boundaries 317.5, 702.5, 1337.5, 1722.5 nor at the wrap point, where the point is the
  corner (or start point) that both adjacent segment formulas give.
\<close>

theorem getXY_periodic_continuous:
  "getXY (p + RAIL_TOTAL_LENGTH) 0 = getXY p 0 \<and>
   \<bar>pt_x (getXY p 0) - pt_x (getXY q 0)\<bar> \<le> \<bar>p - q\<bar> \<and>
   \<bar>pt_y (getXY p 0) - pt_y (getXY q 0)\<bar> \<le> \<bar>p - q\<bar> \<and>
   isCont (\<lambda>u. pt_x (getXY u 0)) p \<and>
   isCont (\<lambda>u. pt_y (getXY u 0)) p \<and>
   pt_x (getXY 317.5 0) = 642.5 \<and> pt_y (getXY 317.5 0) = 7.5 \<and>
   pt_x (getXY 702.5 0) = 642.5 \<and> pt_y (getXY 702.5 0) = 392.5 \<and>
   pt_x (getXY 1337.5 0) = 7.5 \<and> pt_y (getXY 1337.5 0) = 392.5 \<and>
   pt_x (getXY 1722.5 0) = 7.5 \<and> pt_y (getXY 1722.5 0) = 7.5 \<and>
   pt_x (getXY 0 0) = 325 \<and> pt_y (getXY 0 0) = 7.5 \<and>
   getXY RAIL_TOTAL_LENGTH 0 = getXY 0 0"
proof -
  have cx: "isCont (\<lambda>u. pt_x (getXY u 0)) p"
    by (rule isCont_of_step) (simp add: getXY_step)
  have cy: "isCont (\<lambda>u. pt_y (getXY u 0)) p"
    by (rule isCont_of_step) (simp add: getXY_step)
  from getXY_period [of p 0] getXY_step [of p q] cx cy corner_values show ?thesis
    by simp
qed

section \<open>Advancing the particles\<close>

lemma moveElectron_closed:
  assumes "0 \<le> trackPos e" "0 < d"
  shows "moveElectron d e =
    e\<lparr>trackPos := spec_mod (trackPos e + ELECTRON_SPEED * d) RAIL_TOTAL_LENGTH\<rparr>"
proof -
  from assms have "0 \<le> trackPos e + 20 * d"
    by simp
  then show ?thesis
    by (simp add: moveElectron_def js_rem_nonneg)
qed

lemma advanceAll_snoc: "advanceAll b (ds @ [d]) es = advance b d (advanceAll b ds es)"
  by (simp add: advanceAll_def)

lemma advanceAll_closed:
  assumes act: "isOpen b" "\<not> isDepleted b"
    and range: "\<forall>e\<in>set es. 0 \<le> trackPos e \<and> trackPos e < RAIL_TOTAL_LENGTH"
    and pos: "\<forall>d\<in>set ds. 0 < d"
  shows "advanceAll b ds es =
     map (\<lambda>e. e\<lparr>trackPos := spec_mod (trackPos e + ELECTRON_SPEED * sum_list ds) RAIL_TOTAL_LENGTH\<rparr>) es"
  using pos
proof (induction ds rule: rev_induct)
  case Nil
  have "map (\<lambda>e. e\<lparr>trackPos := spec_mod (trackPos e + ELECTRON_SPEED * sum_list []) RAIL_TOTAL_LENGTH\<rparr>) es
      = map (\<lambda>e. e) es"
    by (rule map_cong) (use range in \<open>simp_all add: spec_mod_small\<close>)
  then show ?case
    by (simp add: advanceAll_def)
next
  case (snoc d ds)
  then have IH: "advanceAll b ds es =
      map (\<lambda>e. e\<lparr>trackPos := spec_mod (trackPos e + ELECTRON_SPEED * sum_list ds) RAIL_TOTAL_LENGTH\<rparr>) es"
    and d: "0 < d"
    by simp_all
  have one: "moveElectron d
        (e\<lparr>trackPos := spec_mod (trackPos e + ELECTRON_SPEED * sum_list ds) RAIL_TOTAL_LENGTH\<rparr>)
      = e\<lparr>trackPos := spec_mod (trackPos e + ELECTRON_SPEED * sum_list (ds @ [d])) RAIL_TOTAL_LENGTH\<rparr>"
    for e
    using moveElectron_closed
        [of "e\<lparr>trackPos := spec_mod (trackPos e + ELECTRON_SPEED * sum_list ds) RAIL_TOTAL_LENGTH\<rparr>" d]
      spec_mod_nonneg [of "trackPos e + ELECTRON_SPEED * sum_list ds"] d
      spec_mod_add [of "trackPos e + ELECTRON_SPEED * sum_list ds" "ELECTRON_SPEED * d"]
    by (simp add: algebra_simps)
  show ?case
    unfolding advanceAll_snoc IH using act by (simp add: advance_def one del: sum_list_append)
qed

text \<open>A sequence of animation frames is a sequence of advance calls with the frames' deltas.\<close>

lemma animateAll_advanceAll:
  "electrons (animateAll b ts f) = advanceAll b (frameDeltas (lastTimeRef f) ts) (electrons f)"
proof (induction ts arbitrary: f)
  case Nil
  show ?case
    by (simp add: animateAll_def advanceAll_def)
next
  case (Cons time ts)
  have "animateAll b (time # ts) f = animateAll b ts (animate b time f)"
    by (simp add: animateAll_def)
  then show ?case
    by (simp add: Cons.IH) (simp add: animate_def advanceAll_def Let_def)
qed

text \<open>
  C4: with the circuit closed and the battery not exhausted, for particles whose track
  position lies in [0, 2040) (as created) and any sequence of positive deltas, the track
  position after the whole sequence is \<open>(initial + 20 * t) mod 2040\<close>, \<open>t\<close> the sum of the
  deltas, whatever the split; no other field changes, the positions stay in [0, 2040), and
  advancing by \<open>d1\<close> then \<open>d2\<close> equals advancing once by \<open>d1 + d2\<close>. The frames of
  \<open>animate\<close> are such advance calls, with the differences of the frame times as deltas.
\<close>

theorem advance_additive:
  assumes "isOpen b" and "\<not> isDepleted b"
    and "\<forall>e\<in>set es. 0 \<le> trackPos e \<and> trackPos e < RAIL_TOTAL_LENGTH"
    and "\<forall>d\<in>set ds. 0 < d"
    and "0 < d1" and "0 < d2"
  shows "advanceAll b ds es =
      map (\<lambda>e. e\<lparr>trackPos := spec_mod (trackPos e + ELECTRON_SPEED * sum_list ds) RAIL_TOTAL_LENGTH\<rparr>) es \<and>
    map trackPos (advanceAll b ds es) =
      map (\<lambda>e. spec_mod (trackPos e + ELECTRON_SPEED * sum_list ds) RAIL_TOTAL_LENGTH) es \<and>
    (\<forall>e\<in>set (advanceAll b ds es). 0 \<le> trackPos e \<and> trackPos e < RAIL_TOTAL_LENGTH) \<and>
    advance b d2 (advance b d1 es) = advance b (d1 + d2) es \<and>
    electrons (animateAll b ts f) = advanceAll b (frameDeltas (lastTimeRef f) ts) (electrons f)"
proof -
  note closed = advanceAll_closed [OF assms(1,2,3)]
  have main: "advanceAll b ds es =
      map (\<lambda>e. e\<lparr>trackPos := spec_mod (trackPos e + ELECTRON_SPEED * sum_list ds) RAIL_TOTAL_LENGTH\<rparr>) es"
    by (rule closed) (rule assms(4))
  have two: "advanceAll b [d1, d2] es = advanceAll b [d1 + d2] es"
    using closed [of "[d1, d2]"] closed [of "[d1 + d2]"] assms(5,6) by simp
  have "advanceAll b [d1, d2] es = advance b d2 (advance b d1 es)"
    "advanceAll b [d1 + d2] es = advance b (d1 + d2) es"
    by (simp_all add: advanceAll_def)
  with two have add: "advance b d2 (advance b d1 es) = advance b (d1 + d2) es"
    by simp
  have pos: "map trackPos (advanceAll b ds es) =
      map (\<lambda>e. spec_mod (trackPos e + ELECTRON_SPEED * sum_list ds) RAIL_TOTAL_LENGTH) es"
    unfolding main by (simp add: comp_def)
  have inv: "\<forall>e\<in>set (advanceAll b ds es). 0 \<le> trackPos e \<and> trackPos e < RAIL_TOTAL_LENGTH"
    unfolding main by (auto simp add: spec_mod_nonneg spec_mod_less)
  from main pos inv add animateAll_advanceAll [of b ts f] show ?thesis
    by blast
qed

text \<open>
  C4, for a particle at track position 2030: two frames of 0.3 s and 0.7 s move it by 20
  units, across the wrap point, to track position 10, as one frame of 1 s does.
\<close>

theorem advance_additive_witness:
  "isOpen \<lparr>isOpen = True, isDepleted = False, electrolyteH = 75, ionsCount = 75\<rparr> \<and>
   advanceAll \<lparr>isOpen = True, isDepleted = False, electrolyteH = 75, ionsCount = 75\<rparr>
     [3 / 10, 7 / 10]
     [\<lparr>trackPos = 2030, transPos = 3, eid = 0, vibeDelay = - 1, vibeDuration = 1 / 2\<rparr>]
   = [\<lparr>trackPos = 10, transPos = 3, eid = 0, vibeDelay = - 1, vibeDuration = 1 / 2\<rparr>] \<and>
   advance \<lparr>isOpen = True, isDepleted = False, electrolyteH = 75, ionsCount = 75\<rparr> (7 / 10)
     (advance \<lparr>isOpen = True, isDepleted = False, electrolyteH = 75, ionsCount = 75\<rparr> (3 / 10)
       [\<lparr>trackPos = 2030, transPos = 3, eid = 0, vibeDelay = - 1, vibeDuration = 1 / 2\<rparr>])
   = advance \<lparr>isOpen = True, isDepleted = False, electrolyteH = 75, ionsCount = 75\<rparr> 1
       [\<lparr>trackPos = 2030, transPos = 3, eid = 0, vibeDelay = - 1, vibeDuration = 1 / 2\<rparr>]"
proof -
  let ?b = "\<lparr>isOpen = True, isDepleted = False, electrolyteH = 75, ionsCount = 75\<rparr>"
  let ?e = "\<lparr>trackPos = 2030, transPos = 3, eid = 0, vibeDelay = - 1, vibeDuration = 1 / 2\<rparr>"
  have h1: "isOpen ?b" and h2: "\<not> isDepleted ?b"
    by simp_all
  have h3: "\<forall>e\<in>set [?e]. 0 \<le> trackPos e \<and> trackPos e < RAIL_TOTAL_LENGTH"
    by simp
  have h4: "\<forall>d\<in>set [3 / 10, 7 / 10 :: real]. 0 < d"
    by simp
  have h5: "(0::real) < 3 / 10" and h6: "(0::real) < 7 / 10"
    by simp_all
  have m: "spec_mod 2050 RAIL_TOTAL_LENGTH = 10"
    by (simp add: spec_mod_def)
  from advance_additive [OF h1 h2 h3 h4 h5 h6] h1 m show ?thesis
    by simp
qed

section \<open>Field-line samples\<close>

lemma fieldLoop_from:
  "k \<le> 51 \<Longrightarrow>
     fieldLoop (40 * real k) acc =
       acc @ map (\<lambda>p. getXY p 0)
         (filter (\<lambda>p. \<not> overlapsBattery (getXY p 0)) (map (\<lambda>j. 40 * real j) [k..<51]))"
proof (induction k arbitrary: acc rule: inc_induct)
  case base
  show ?case
    by (subst fieldLoop.simps) simp
next
  case (step n)
  from step.hyps have lt: "40 * real n < RAIL_TOTAL_LENGTH"
    by simp
  have nxt: "40 * real n + 40 = 40 * real (Suc n)"
    by simp
  have cons: "[n..<51] = n # [Suc n..<51]"
    using step.hyps by (simp add: upt_conv_Cons)
  show ?case
    by (subst fieldLoop.simps)
      (simp add: lt nxt cons step.IH Let_def del: fieldLoop.simps of_nat_Suc)
qed

text \<open>In arc length, the skipped window is the first 75 units and the last 75 units of the loop.\<close>

lemma overlapsBattery_iff:
  "0 \<le> p \<Longrightarrow> p < RAIL_TOTAL_LENGTH \<Longrightarrow>
     overlapsBattery (getXY p 0) = (p \<le> 75 \<or> 1965 \<le> p)"
  by (auto simp add: overlapsBattery_def getXY_def railPos_id Let_def)

lemma candidates_list:
  "map (\<lambda>k. 40 * real k) [0..<51] =
   [0, 40, 80, 120, 160, 200, 240, 280, 320, 360, 400, 440, 480, 520, 560, 600, 640, 680,
    720, 760, 800, 840, 880, 920, 960, 1000, 1040, 1080, 1120, 1160, 1200, 1240, 1280, 1320,
    1360, 1400, 1440, 1480, 1520, 1560, 1600, 1640, 1680, 1720, 1760, 1800, 1840, 1880, 1920,
    1960, 2000]"
  by (simp add: upt_rec)

lemma skipped_candidates:
  "filter (\<lambda>p. overlapsBattery (getXY p 0)) (map (\<lambda>k. 40 * real k) [0..<51]) = [0, 40, 2000]"
  unfolding candidates_list by (simp add: overlapsBattery_iff)

lemma kept_candidates:
  "filter (\<lambda>p. \<not> overlapsBattery (getXY p 0)) (map (\<lambda>k. 40 * real k) [0..<51])
     = map (\<lambda>k. 40 * real k) [2..<50]"
  unfolding candidates_list by (simp add: overlapsBattery_iff upt_rec)

text \<open>
  C8: the loop visits the 51 candidates \<open>p = 0, 40, ..., 2000\<close> (51 is the ceiling of
  2040 / 40) and the generated list holds, in order, the points \<open>getXY p 0\<close> of exactly the
  candidates that do not lie on the top segment with x in [250, 400]; the candidates left
  out are 0, 40 and 2000, so the list is the 48 points at \<open>p = 80, 120, ..., 1960\<close>.
\<close>

theorem fieldLines_samples:
  "fieldLinesGenerated =
     map (\<lambda>p. getXY p 0)
       (filter (\<lambda>p. \<not> overlapsBattery (getXY p 0)) (map (\<lambda>k. 40 * real k) [0..<51])) \<and>
   nat \<lceil>RAIL_TOTAL_LENGTH / 40\<rceil> = 51 \<and>
   length (map (\<lambda>k. 40 * real k) [0..<51]) = 51 \<and>
   filter (\<lambda>p. overlapsBattery (getXY p 0)) (map (\<lambda>k. 40 * real k) [0..<51]) = [0, 40, 2000] \<and>
   fieldLinesGenerated = map (\<lambda>k. getXY (40 * real k) 0) [2..<50] \<and>
   length fieldLinesGenerated = 48"
proof -
  have gen: "fieldLinesGenerated =
     map (\<lambda>p. getXY p 0)
       (filter (\<lambda>p. \<not> overlapsBattery (getXY p 0)) (map (\<lambda>k. 40 * real k) [0..<51]))"
    using fieldLoop_from [of 0 "[]"] by (simp add: fieldLinesGenerated_def del: fieldLoop.simps)
  have cnt: "nat \<lceil>RAIL_TOTAL_LENGTH / 40\<rceil> = 51"
    by simp
  have expl: "fieldLinesGenerated = map (\<lambda>k. getXY (40 * real k) 0) [2..<50]"
    unfolding gen kept_candidates by (simp add: comp_def)
  have len: "length fieldLinesGenerated = 48"
    unfolding expl by simp
  from gen cnt skipped_candidates expl len show ?thesis
    by simp
qed


end
